theory Spec2Isabelle
  imports
    Main
    "HOL-Library.Sublist"
    "HOL-Library.Char_ord"
    "HOL-Library.List_Lexorder"
    "HOL-Library.Multiset"
begin

section \<open>Python string primitives used by \<open>generate.py\<close>\<close>

text \<open>
  Strings are \<open>char list\<close>; a \<open>char\<close> stands for a code point below 256.  The order on
  strings is the lexicographic order on code points, which is the order Python's
  \<open>sorted\<close> uses on \<open>str\<close>.
\<close>

text \<open>\<open>str.isspace\<close> on one code point (the white space of \<open>str.strip()\<close>).\<close>

definition py_isspace :: "char \<Rightarrow> bool" where
  "py_isspace c = ((of_char c :: nat) \<in> set [9, 10, 11, 12, 13, 28, 29, 30, 31, 32, 133, 160])"

text \<open>\<open>s.strip(chars)\<close>: drop the leading and the trailing characters that occur in \<open>chars\<close>.\<close>

definition py_strip_chars :: "string \<Rightarrow> string \<Rightarrow> string" where
  "py_strip_chars chars s =
     rev (dropWhile (\<lambda>c. c \<in> set chars) (rev (dropWhile (\<lambda>c. c \<in> set chars) s)))"

text \<open>\<open>s.strip()\<close>: drop leading and trailing white space.\<close>

definition py_strip :: "string \<Rightarrow> string" where
  "py_strip s = rev (dropWhile py_isspace (rev (dropWhile py_isspace s)))"

text \<open>
  \<open>s.split(sep)\<close> for a non-empty separator: the pieces between the non-overlapping
  occurrences of \<open>sep\<close>, found from the left.  The result is never empty.  (Python raises
  on an empty separator; the program only splits on \<open>", "\<close> and \<open>"="\<close>.)
\<close>

fun py_split :: "string \<Rightarrow> string \<Rightarrow> string list" where
  "py_split sep [] = [[]]"
| "py_split sep (c # cs) =
     (if prefix sep (c # cs) then [] # py_split sep (drop (length sep - 1) cs)
      else (let r = py_split sep cs in (c # hd r) # tl r))"

text \<open>\<open>sep.join(xs)\<close>.\<close>

fun py_join :: "string \<Rightarrow> string list \<Rightarrow> string" where
  "py_join sep [] = []"
| "py_join sep [x] = x"
| "py_join sep (x # y # ys) = x @ sep @ py_join sep (y # ys)"

text \<open>\<open>s.startswith(p)\<close> is \<^const>\<open>prefix\<close> \<open>p s\<close>; \<open>"\n" in s\<close> is membership of the
  line feed in \<open>set s\<close>.\<close>

text \<open>The line boundaries of \<open>str.splitlines\<close> (below code point 256).\<close>

definition is_linebreak :: "char \<Rightarrow> bool" where
  "is_linebreak c = ((of_char c :: nat) \<in> set [10, 11, 12, 13, 28, 29, 30, 133])"

text \<open>\<open>s.splitlines(True)\<close>: the lines of \<open>s\<close>, each with its line ending; \<open>\r\n\<close> is one
  ending.\<close>

fun splitlines :: "string \<Rightarrow> string list" where
  "splitlines [] = []"
| "splitlines (c # cs) =
     (if c = CHR 0x0D \<and> prefix [CHR 0x0A] cs then [c, CHR 0x0A] # splitlines (drop 1 cs)
      else if is_linebreak c then [c] # splitlines cs
      else (case splitlines cs of [] \<Rightarrow> [[c]] | l # ls \<Rightarrow> (c # l) # ls))"

text \<open>
  \<open>textwrap.indent(text, prefix)\<close>: \<open>prefix\<close> is put in front of every line that does not
  consist of white space only.
\<close>

definition textwrap_indent :: "string \<Rightarrow> string \<Rightarrow> string" where
  "textwrap_indent text pfx =
     concat (map (\<lambda>line. if list_all py_isspace line then line else pfx @ line)
                 (splitlines text))"

text \<open>Truth value of an optional string: \<open>None\<close> and \<open>""\<close> are false.\<close>

fun truthy :: "string option \<Rightarrow> bool" where
  "truthy None = False"
| "truthy (Some s) = (s \<noteq> [])"

section \<open>Objects, as far as the generator inspects them\<close>

text \<open>
  The result of \<open>type(obj)\<close>.  In CPython \<open>types.BuiltinFunctionType\<close> and
  \<open>types.BuiltinMethodType\<close> are one and the same type object,
  \<open>builtin_function_or_method\<close>.  Every other type is \<open>OtherType\<close> with its name.
\<close>

datatype pytype = BuiltinFunctionOrMethod | MethodDescriptor | TypeType | OtherType string

definition BuiltinFunctionType :: pytype where "BuiltinFunctionType = BuiltinFunctionOrMethod"
definition MethodDescriptorType :: pytype where "MethodDescriptorType = MethodDescriptor"
definition BuiltinMethodType :: pytype where "BuiltinMethodType = BuiltinFunctionOrMethod"

definition FUNCTION_TYPES :: "pytype list" where
  "FUNCTION_TYPES = [BuiltinFunctionType, MethodDescriptorType, BuiltinMethodType]"

definition SUPPORTED_TYPES :: "pytype list" where
  "SUPPORTED_TYPES = FUNCTION_TYPES @ [TypeType]"

fun type_name :: "pytype \<Rightarrow> string" where
  "type_name BuiltinFunctionOrMethod = ''builtin_function_or_method''"
| "type_name MethodDescriptor = ''method_descriptor''"
| "type_name TypeType = ''type''"
| "type_name (OtherType n) = n"

text \<open>\<open>str(type(obj))\<close>, as the f-string of \<open>genentry\<close> formats it.\<close>

definition type_repr :: "pytype \<Rightarrow> string" where
  "type_repr t = ''<class '' @ [CHR 0x27] @ type_name t @ [CHR 0x27] @ ''>''"

text \<open>The attribute \<open>__text_signature__\<close>: missing, \<open>None\<close>, or a string.\<close>

datatype attr = Absent | PyNone | PyStr string

text \<open>
  An object: its type, \<open>__name__\<close>, \<open>__doc__\<close>, \<open>__text_signature__\<close>, and its namespace
  in the order of \<open>dir\<close>, each name with the value \<open>getattr\<close> gives for it (every name
  that \<open>dir\<close> lists is taken to be readable).
\<close>

datatype pyobj =
  PyObj (py_type: pytype) (py_name: string) (py_doc: "string option")
        (py_text_signature: attr) (py_dir: "(string \<times> pyobj) list")

datatype error = ValueError string | AttributeError string

text \<open>The error of a failed attribute access, with Python's message.\<close>

definition no_attribute :: "string \<Rightarrow> string \<Rightarrow> error" where
  "no_attribute tname aname =
     AttributeError ([CHR 0x27] @ tname @ [CHR 0x27] @ '' object has no attribute ''
                     @ [CHR 0x27] @ aname @ [CHR 0x27])"

text \<open>A list comprehension whose element expression may raise: the first error ends it.\<close>

fun mapM :: "('a \<Rightarrow> error + 'b) \<Rightarrow> 'a list \<Rightarrow> error + 'b list" where
  "mapM f [] = Inr []"
| "mapM f (x # xs) =
     (case f x of
        Inl e \<Rightarrow> Inl e
      | Inr y \<Rightarrow> (case mapM f xs of Inl e \<Rightarrow> Inl e | Inr ys \<Rightarrow> Inr (y # ys)))"

section \<open>The generator\<close>

text \<open>Line 29: the clauses of the signature.\<close>

definition sig_args :: "string \<Rightarrow> string list" where
  "sig_args sig = map py_strip (py_split '', '' (py_strip_chars '' ()'' sig))"

text \<open>Lines 33 to 41: one clause.  \<open>spl\<close> is never empty, so \<open>spl[0]\<close> exists.\<close>

definition parse_arg :: "string \<Rightarrow> string" where
  "parse_arg argstr =
     (let spl = py_split ''='' argstr;
          argname = spl ! 0;
          argname = (if argname = ''$self'' then ''self'' else argname);
          argdef = (if length spl = 2 then Some (spl ! 1) else None);
          argtype = (None :: string option)
      in argname
         @ (if truthy argtype then '': '' @ the argtype else [])
         @ (if truthy argdef then '' = '' @ the argdef else []))"

definition parse_signature :: "string \<Rightarrow> string option \<Rightarrow> string" where
  "parse_signature sig docstr = ''('' @ py_join '', '' (map parse_arg (sig_args sig)) @ '')''"

text \<open>Lines 60 to 66 and 93 to 97: the documentation block of a non-empty \<open>__doc__\<close>.\<close>

definition doc_block :: "string \<Rightarrow> string" where
  \<open>doc_block d =
     (if CHR 0x0A \<in> set d
      then ''    """\<newline>'' @ textwrap_indent d ''    '' @ ''\<newline>    """''
      else ''    """'' @ d @ ''"""'')\<close>

text \<open>
  Reading \<open>function.__text_signature__\<close> raises when the attribute is missing, and
  \<open>parse_signature\<close> raises at \<open>sig.strip\<close> when it is \<open>None\<close>.  The documentation block is
  computed before either.
\<close>

definition gen_function_entry :: "pyobj \<Rightarrow> error + string" where
  "gen_function_entry function =
     (let doc = (if truthy (py_doc function) then doc_block (the (py_doc function))
                 else ''    ...'')
      in case py_text_signature function of
           Absent \<Rightarrow> Inl (no_attribute (type_name (py_type function)) ''__text_signature__'')
         | PyNone \<Rightarrow> Inl (no_attribute ''NoneType'' ''strip'')
         | PyStr sig \<Rightarrow>
             Inr (''def '' @ py_name function @ parse_signature sig (py_doc function)
                  @ '':\<newline>'' @ doc @ ''\<newline>''))"

text \<open>Lines 88 to 90: the members of a class that become methods.\<close>

definition is_method :: "pyobj \<Rightarrow> bool" where
  "is_method function =
     (py_type function \<in> set [MethodDescriptorType, BuiltinMethodType]
      \<and> py_text_signature function \<noteq> Absent
      \<and> \<not> prefix ''__'' (py_name function))"

definition gen_method :: "pyobj \<Rightarrow> error + string" where
  "gen_method function =
     (case gen_function_entry function of
        Inl e \<Rightarrow> Inl e
      | Inr s \<Rightarrow> Inr (textwrap_indent s ''    ''))"

definition gen_class_entry :: "pyobj \<Rightarrow> error + string" where
  "gen_class_entry cls =
     (let dir_contents = map snd (py_dir cls)
      in case mapM gen_method (filter is_method dir_contents) of
           Inl e \<Rightarrow> Inl e
         | Inr methods \<Rightarrow>
             (let doc = (if truthy (py_doc cls) then doc_block (the (py_doc cls))
                         else if methods = [] then ''    ...''
                         else []);
                  doc = doc @ ''\<newline>'' @ py_join ''\<newline>'' methods
              in Inr (''class '' @ py_name cls @ '':\<newline>'' @ doc @ ''\<newline>'')))"

definition genentry :: "pyobj \<Rightarrow> error + string" where
  "genentry obj =
     (if py_type obj \<in> set FUNCTION_TYPES then gen_function_entry obj
      else if py_type obj = TypeType then gen_class_entry obj
      else Inl (ValueError (''Unsupported type '' @ type_repr (py_type obj))))"

definition header :: string where
  "header = ''# flake8: noqa: PYI021''"

text \<open>The module is an object too; \<open>genpyi\<close> reads its namespace only.\<close>

definition genpyi :: "pyobj \<Rightarrow> error + string" where
  "genpyi module =
     (let objs = map snd (py_dir module)
      in case mapM genentry (filter (\<lambda>obj. py_type obj \<in> set SUPPORTED_TYPES) objs) of
           Inl e \<Rightarrow> Inl e
         | Inr definitions \<Rightarrow> Inr (py_join ''\<newline>'' (header # sort definitions)))"

section \<open>Example objects\<close>

text \<open>A native function \<open>add\<close> with signature text \<open>(a, b=0)\<close> and a one-line docstring.\<close>

definition add_function :: pyobj where
  "add_function =
     PyObj BuiltinFunctionOrMethod ''add'' (Some ''Add two numbers.'') (PyStr ''(a, b=0)'') []"

text \<open>A plain integer: its attributes are not read, only its type is.\<close>

definition int_object :: pyobj where
  "int_object = PyObj (OtherType ''int'') [] None Absent []"

text \<open>A module that exposes \<open>add\<close>, its own name (a string) and an integer.\<close>

definition add_module :: pyobj where
  "add_module =
     PyObj (OtherType ''module'') ''synthetic'' None Absent
       [(''__name__'', PyObj (OtherType ''str'') [] None Absent []),
        (''add'', add_function),
        (''version'', int_object)]"

text \<open>A class without members and without documentation.\<close>

definition empty_class :: pyobj where
  "empty_class = PyObj TypeType ''Empty'' None Absent []"

text \<open>A function without documentation and without parameters, and a class named \<open>b\<close>:
  the name \<open>a\<close> sorts before \<open>b\<close>, the entry text \<open>class b\<close> before \<open>def a\<close>.\<close>

definition function_a :: pyobj where
  "function_a = PyObj BuiltinFunctionOrMethod ''a'' None (PyStr ''()'') []"

definition class_b :: pyobj where
  "class_b = PyObj TypeType ''b'' None Absent []"

definition sort_module :: pyobj where
  "sort_module =
     PyObj (OtherType ''module'') ''ordering'' None Absent
       [(''a'', function_a), (''b'', class_b)]"

text \<open>The same members, enumerated in the other order.\<close>

definition sort_module_rev :: pyobj where
  "sort_module_rev =
     PyObj (OtherType ''module'') ''ordering'' None Absent
       [(''b'', class_b), (''a'', function_a)]"

text \<open>A function whose documentation has two lines.\<close>

definition sum_function :: pyobj where
  "sum_function =
     PyObj BuiltinFunctionOrMethod ''total'' (Some ''Add two numbers.\<newline>Return the sum.'')
       (PyStr ''(a, b)'') []"

text \<open>A class with a special method and an ordinary one, both native methods with a
  text signature; and the same class without the special method.\<close>

definition increment_method :: pyobj where
  "increment_method =
     PyObj MethodDescriptor ''increment'' (Some ''Add to the count.'')
       (PyStr ''($self, by=1)'') []"

definition reduce_method :: pyobj where
  "reduce_method =
     PyObj MethodDescriptor ''__reduce__'' (Some ''Helper for pickle.'')
       (PyStr ''($self, /)'') []"

definition counter_class :: pyobj where
  "counter_class =
     PyObj TypeType ''Counter'' (Some ''A counter.'') Absent
       [(''__reduce__'', reduce_method), (''increment'', increment_method)]"

definition counter_class_plain :: pyobj where
  "counter_class_plain =
     PyObj TypeType ''Counter'' (Some ''A counter.'') Absent
       [(''increment'', increment_method)]"

section \<open>Vocabulary for stating the properties\<close>

text \<open>
  The definitions of this section are not part of the program: they describe the inputs
  and outputs that the theorems below speak about.
\<close>

text \<open>What \<open>textwrap.indent\<close> does to one line.\<close>

definition indent_line :: "string \<Rightarrow> string \<Rightarrow> string" where
  "indent_line pfx line = (if list_all py_isspace line then line else pfx @ line)"

text \<open>
  Taking the indentation away again: the prefix is removed from every line that is not
  white space only and starts with it.
\<close>

definition unindent_line :: "string \<Rightarrow> string \<Rightarrow> string" where
  "unindent_line pfx line =
     (if list_all py_isspace line then line
      else if prefix pfx line then drop (length pfx) line
      else line)"

definition unindent :: "string \<Rightarrow> string \<Rightarrow> string" where
  "unindent text pfx = concat (map (unindent_line pfx) (splitlines text))"

text \<open>
  A plain token: not empty, without white space and without the characters that the
  parser treats specially (space, comma, equals sign, parentheses).
\<close>

definition plain :: "string \<Rightarrow> bool" where
  "plain s = (s \<noteq> [] \<and> list_all (\<lambda>c. c \<notin> set '' ,=()'' \<and> \<not> py_isspace c) s)"

text \<open>A parameter clause is a name with an optional default: how it is written in a text
  signature, and how the parser's output writes it.\<close>

fun clause_text :: "string \<times> string option \<Rightarrow> string" where
  "clause_text (n, None) = n"
| "clause_text (n, Some d) = n @ ''='' @ d"

fun clause_out :: "string \<times> string option \<Rightarrow> string" where
  "clause_out (n, None) = (if n = ''$self'' then ''self'' else n)"
| "clause_out (n, Some d) = (if n = ''$self'' then ''self'' else n) @ '' = '' @ d"

fun plain_clause :: "string \<times> string option \<Rightarrow> bool" where
  "plain_clause (n, None) = plain n"
| "plain_clause (n, Some d) = (plain n \<and> plain d)"

section \<open>Facts about the primitives\<close>

lemma py_split_nonempty: "py_split sep s \<noteq> []"
  by (induction s) (auto simp: Let_def)

lemma dropWhile_all: "\<forall>c \<in> set s. P c \<Longrightarrow> dropWhile P s = []"
  by (induction s) auto

lemma py_strip_chars_all: "set s \<subseteq> set chars \<Longrightarrow> py_strip_chars chars s = []"
  by (simp add: py_strip_chars_def dropWhile_all subset_iff)

lemma py_strip_empty: "py_strip [] = []"
  by (simp add: py_strip_def)

lemma parse_arg_empty: "parse_arg [] = []"
  by (simp add: parse_arg_def)

lemma mapM_Inr_D: "mapM f xs = Inr ys \<Longrightarrow> list_all2 (\<lambda>x y. f x = Inr y) xs ys"
  by (induction xs arbitrary: ys) (auto split: sum.splits)

lemma mapM_Inr_I: "list_all2 (\<lambda>x y. f x = Inr y) xs ys \<Longrightarrow> mapM f xs = Inr ys"
  by (induction xs ys rule: list_all2_induct) auto

lemma mapM_Inl: "mapM f xs = Inl e \<Longrightarrow> \<exists>x \<in> set xs. f x = Inl e"
  by (induction xs) (auto split: sum.splits)

lemma mapM_all_Inr: "\<forall>x \<in> set xs. f x = Inr (g x) \<Longrightarrow> mapM f xs = Inr (map g xs)"
  by (induction xs) auto

lemma mapM_Inr_map:
  "mapM f xs = Inr ys \<Longrightarrow>
     ys = map (\<lambda>x. projr (f x)) xs \<and> (\<forall>x \<in> set xs. f x = Inr (projr (f x)))"
  by (induction xs arbitrary: ys) (auto split: sum.splits)

lemma py_join_Cons: "py_join sep (x # xs) = x @ (if xs = [] then [] else sep @ py_join sep xs)"
  by (cases xs) auto

section \<open>Which errors the generators can raise\<close>

lemma gen_function_entry_no_ValueError: "gen_function_entry f \<noteq> Inl (ValueError msg)"
  by (simp add: gen_function_entry_def no_attribute_def Let_def split: attr.splits)

text \<open>A native callable whose text signature is \<open>None\<close> makes the generator raise.\<close>

lemma gen_function_entry_None_signature:
  "py_text_signature f = PyNone \<Longrightarrow> gen_function_entry f = Inl (no_attribute ''NoneType'' ''strip'')"
  by (simp add: gen_function_entry_def)

lemma gen_method_no_ValueError: "gen_method f \<noteq> Inl (ValueError msg)"
  using gen_function_entry_no_ValueError [of f msg]
  by (auto simp: gen_method_def split: sum.splits)

lemma gen_class_entry_no_ValueError: "gen_class_entry cls \<noteq> Inl (ValueError msg)"
proof
  assume "gen_class_entry cls = Inl (ValueError msg)"
  then have "mapM gen_method (filter is_method (map snd (py_dir cls))) = Inl (ValueError msg)"
    by (simp add: gen_class_entry_def Let_def split: sum.splits)
  then obtain x where "gen_method x = Inl (ValueError msg)"
    using mapM_Inl by blast
  then show False
    by (simp add: gen_method_no_ValueError)
qed

lemma TypeType_not_function: "TypeType \<notin> set FUNCTION_TYPES"
  by (simp add: FUNCTION_TYPES_def BuiltinFunctionType_def MethodDescriptorType_def
      BuiltinMethodType_def)

lemma supported_iff:
  "py_type obj \<in> set SUPPORTED_TYPES
   \<longleftrightarrow> py_type obj \<in> set FUNCTION_TYPES \<or> py_type obj = TypeType"
  by (auto simp: SUPPORTED_TYPES_def)

lemma add_function_type: "py_type add_function \<in> set FUNCTION_TYPES"
  by (simp add: add_function_def FUNCTION_TYPES_def BuiltinFunctionType_def)

lemma int_object_type:
  "py_type int_object \<notin> set FUNCTION_TYPES \<and> py_type int_object \<noteq> TypeType"
  by (simp add: int_object_def FUNCTION_TYPES_def BuiltinFunctionType_def
      MethodDescriptorType_def BuiltinMethodType_def)

section \<open>The end-to-end example\<close>

lemma parse_signature_a_b0: "parse_signature ''(a, b=0)'' d = ''(a, b = 0)''"
  by (simp add: parse_signature_def) code_simp

lemma doc_block_add: \<open>doc_block ''Add two numbers.'' = ''    """Add two numbers."""''\<close>
  by code_simp

text \<open>
  Claim C1, as the code has it.  For a module whose only members of supported kind are
  one function named \<open>add\<close> with text signature \<open>(a, b=0)\<close> and docstring
  \<open>Add two numbers.\<close>, \<open>genpyi\<close> returns the header line, one line feed, and then
  \<open>def add(a, b = 0):\<close>, a line feed, the indented one-line docstring in triple quotes and
  a final line feed.  The default is written with a space on each side of \<open>=\<close>, and no
  blank line follows the header.
\<close>

theorem genpyi_add:
  assumes "filter (\<lambda>obj. py_type obj \<in> set SUPPORTED_TYPES) (map snd (py_dir m)) = [f]"
    and "py_type f \<in> set FUNCTION_TYPES"
    and "py_name f = ''add''"
    and "py_text_signature f = PyStr ''(a, b=0)''"
    and "py_doc f = Some ''Add two numbers.''"
  shows \<open>genpyi m =
     Inr ''# flake8: noqa: PYI021\<newline>def add(a, b = 0):\<newline>    """Add two numbers."""\<newline>''\<close>
proof -
  have "gen_function_entry f =
      Inr (''def add(a, b = 0):\<newline>'' @ doc_block ''Add two numbers.'' @ ''\<newline>'')"
    using assms(3-5) by (simp add: gen_function_entry_def parse_signature_a_b0)
  then have "genentry f =
      Inr (''def add(a, b = 0):\<newline>'' @ doc_block ''Add two numbers.'' @ ''\<newline>'')"
    using assms(2) by (simp add: genentry_def)
  then show ?thesis
    using assms(1) by (simp add: genpyi_def header_def doc_block_add)
qed

theorem genpyi_add_witness:
  \<open>filter (\<lambda>obj. py_type obj \<in> set SUPPORTED_TYPES) (map snd (py_dir add_module))
     = [add_function]
   \<and> py_type add_function \<in> set FUNCTION_TYPES
   \<and> py_name add_function = ''add''
   \<and> py_text_signature add_function = PyStr ''(a, b=0)''
   \<and> py_doc add_function = Some ''Add two numbers.''
   \<and> genpyi add_module =
     Inr ''# flake8: noqa: PYI021\<newline>def add(a, b = 0):\<newline>    """Add two numbers."""\<newline>''\<close>
proof -
  have h1: "filter (\<lambda>obj. py_type obj \<in> set SUPPORTED_TYPES) (map snd (py_dir add_module))
      = [add_function]"
    by (simp add: add_module_def add_function_def int_object_def SUPPORTED_TYPES_def
        FUNCTION_TYPES_def BuiltinFunctionType_def MethodDescriptorType_def
        BuiltinMethodType_def)
  have h2: "py_type add_function \<in> set FUNCTION_TYPES"
    by (rule add_function_type)
  have h3: "py_name add_function = ''add''"
    and h4: "py_text_signature add_function = PyStr ''(a, b=0)''"
    and h5: "py_doc add_function = Some ''Add two numbers.''"
    by (simp_all add: add_function_def)
  show ?thesis
    using genpyi_add [OF h1 h2 h3 h4 h5] h1 h2 h3 h4 h5 by simp
qed

text \<open>
  Claim C1, as the specification words it (a blank line after the header and the default
  spelled \<open>b=0\<close>), does not hold for the example module.
\<close>

theorem genpyi_add_counterexample:
  \<open>genpyi add_module \<noteq>
     Inr ''# flake8: noqa: PYI021\<newline>\<newline>def add(a, b=0):\<newline>    """Add two numbers."""\<newline>''\<close>
  unfolding add_module_def add_function_def int_object_def by code_simp

section \<open>The signature parser\<close>

lemma strip_by_id:
  assumes "s \<noteq> []" "\<not> P (hd s)" "\<not> P (last s)"
  shows "rev (dropWhile P (rev (dropWhile P s))) = s"
proof -
  have "dropWhile P s = s"
    using assms(1,2) by (cases s) auto
  moreover have "dropWhile P (rev s) = rev s"
    using assms(1,3) by (cases "rev s") (auto simp: last_rev [symmetric] simp del: last_rev)
  ultimately show ?thesis by simp
qed

lemma py_split_no_sep:
  "c \<notin> set t \<Longrightarrow> py_split (c # sep) t = [t]"
  by (induction t) (auto simp: Let_def)

lemma py_split_comma_append:
  "CHR '','' \<notin> set t \<Longrightarrow> py_split '', '' (t @ '', '' @ r) = t # py_split '', '' r"
  by (induction t) (auto simp: Let_def)

lemma py_split_eq_append:
  "CHR ''='' \<notin> set n \<Longrightarrow> py_split ''='' (n @ ''='' @ d) = n # py_split ''='' d"
  by (induction n) (auto simp: Let_def)

lemma py_split_py_join:
  assumes "ts \<noteq> []" "\<forall>t \<in> set ts. CHR '','' \<notin> set t"
  shows "py_split '', '' (py_join '', '' ts) = ts"
  using assms
proof (induction ts)
  case Nil
  then show ?case by simp
next
  case (Cons t ts)
  show ?case
  proof (cases ts)
    case Nil
    with Cons.prems show ?thesis by (simp add: py_split_no_sep)
  next
    case (Cons u us)
    with Cons.IH Cons.prems have "py_split '', '' (py_join '', '' ts) = ts"
      by simp
    with Cons Cons.prems show ?thesis
      using py_split_comma_append [of t "py_join '', '' ts"] by simp
  qed
qed

lemma plain_no_char: "plain s \<Longrightarrow> c \<in> set '' ,=()'' \<Longrightarrow> c \<notin> set s"
  by (auto simp: plain_def list_all_iff)

lemma plain_not_space: "plain s \<Longrightarrow> c \<in> set s \<Longrightarrow> \<not> py_isspace c"
  by (auto simp: plain_def list_all_iff)

lemma plain_nonempty: "plain s \<Longrightarrow> s \<noteq> []"
  by (simp add: plain_def)

lemma parse_arg_name:
  assumes "plain n"
  shows "parse_arg n = clause_out (n, None)"
proof -
  have "py_split ''='' n = [n]"
    using plain_no_char [OF assms, of "CHR ''=''"] by (simp add: py_split_no_sep)
  then show ?thesis
    by (simp add: parse_arg_def)
qed

lemma parse_arg_default:
  assumes "plain n" "plain d"
  shows "parse_arg (n @ ''='' @ d) = clause_out (n, Some d)"
proof -
  have "py_split ''='' d = [d]"
    using plain_no_char [OF assms(2), of "CHR ''=''"] by (simp add: py_split_no_sep)
  then have "py_split ''='' (n @ ''='' @ d) = [n, d]"
    using plain_no_char [OF assms(1), of "CHR ''=''"] py_split_eq_append [of n d] by simp
  then show ?thesis
    using plain_nonempty [OF assms(2)] by (simp add: parse_arg_def)
qed

lemma parse_arg_clause:
  assumes "plain_clause c"
  shows "parse_arg (clause_text c) = clause_out c"
proof (cases c)
  case (Pair n d)
  show ?thesis
  proof (cases d)
    case None
    with Pair assms have "plain n" by simp
    then have "parse_arg n = clause_out (n, None)" by (rule parse_arg_name)
    with Pair None show ?thesis by (simp only: clause_text.simps)
  next
    case (Some t)
    with Pair assms have "plain n" "plain t" by simp_all
    then have "parse_arg (n @ ''='' @ t) = clause_out (n, Some t)" by (rule parse_arg_default)
    with Pair Some show ?thesis by (simp only: clause_text.simps)
  qed
qed

lemma clause_text_chars:
  assumes "plain_clause c"
  shows "clause_text c \<noteq> [] \<and> (\<forall>x \<in> set (clause_text c). x \<notin> set '' ,()'' \<and> \<not> py_isspace x)"
proof (cases c)
  case (Pair n d)
  show ?thesis
  proof (cases d)
    case None
    with Pair assms show ?thesis
      by (auto simp: plain_def list_all_iff)
  next
    case (Some t)
    have "\<not> py_isspace (CHR ''='')"
      by (simp add: py_isspace_def)
    with Some Pair assms show ?thesis
      by (auto simp: plain_def list_all_iff)
  qed
qed

lemma py_strip_clause:
  assumes "plain_clause c"
  shows "py_strip (clause_text c) = clause_text c"
proof -
  from clause_text_chars [OF assms]
  have ne: "clause_text c \<noteq> []" and sp: "\<forall>x \<in> set (clause_text c). \<not> py_isspace x"
    by blast+
  from ne sp have "\<not> py_isspace (hd (clause_text c))" "\<not> py_isspace (last (clause_text c))"
    by simp_all
  with ne show ?thesis
    unfolding py_strip_def by (intro strip_by_id)
qed

lemma py_join_nonempty_hd_last:
  assumes "ts \<noteq> []" "\<forall>t \<in> set ts. t \<noteq> [] \<and> \<not> P (hd t) \<and> \<not> P (last t)"
  shows "py_join sep ts \<noteq> [] \<and> \<not> P (hd (py_join sep ts)) \<and> \<not> P (last (py_join sep ts))"
  using assms
proof (induction ts)
  case Nil
  then show ?case by simp
next
  case (Cons t ts)
  show ?case
  proof (cases ts)
    case Nil
    with Cons.prems show ?thesis by simp
  next
    case (Cons u us)
    with Cons.IH Cons.prems
    have "py_join sep ts \<noteq> [] \<and> \<not> P (last (py_join sep ts))"
      by simp
    with Cons Cons.prems show ?thesis
      by (simp add: py_join_Cons)
  qed
qed

text \<open>
  What the parser does on signatures built from plain clauses: \<open>$self\<close> becomes \<open>self\<close>,
  the clauses keep their order, and a default is written after \<open> = \<close> as it stands.
\<close>

theorem parse_signature_plain_clauses:
  assumes "cs \<noteq> []" and "\<forall>c \<in> set cs. plain_clause c"
  shows "parse_signature (''('' @ py_join '', '' (map clause_text cs) @ '')'') docstr
     = ''('' @ py_join '', '' (map clause_out cs) @ '')''"
proof -
  let ?ts = "map clause_text cs"
  let ?body = "py_join '', '' ?ts"
  let ?P = "\<lambda>c. c \<in> set '' ()''"
  have ts: "?ts \<noteq> []" using assms(1) by simp
  have chars: "\<forall>t \<in> set ?ts. t \<noteq> [] \<and> (\<forall>x \<in> set t. x \<notin> set '' ,()'' \<and> \<not> py_isspace x)"
    using assms(2) clause_text_chars by auto
  then have "\<forall>t \<in> set ?ts. t \<noteq> [] \<and> \<not> ?P (hd t) \<and> \<not> ?P (last t)"
    by (metis (no_types, lifting) hd_in_set last_in_set list.set_intros(1,2) set_ConsD)
  with ts have body: "?body \<noteq> [] \<and> \<not> ?P (hd ?body) \<and> \<not> ?P (last ?body)"
    by (rule py_join_nonempty_hd_last)
  have "dropWhile ?P (''('' @ ?body @ '')'') = ?body @ '')''"
    using body by (cases ?body) auto
  moreover have "dropWhile ?P (rev (?body @ '')'')) = rev ?body"
    using body by (cases "rev ?body") (auto simp: last_rev [symmetric] simp del: last_rev)
  ultimately have "py_strip_chars '' ()'' (''('' @ ?body @ '')'') = ?body"
    by (simp add: py_strip_chars_def)
  moreover have "py_split '', '' ?body = ?ts"
    using ts chars by (intro py_split_py_join) auto
  ultimately have "sig_args (''('' @ ?body @ '')'') = map py_strip ?ts"
    by (simp add: sig_args_def)
  also have "\<dots> = ?ts"
    using assms(2) by (simp add: py_strip_clause)
  finally have "map parse_arg (sig_args (''('' @ ?body @ '')'')) = map clause_out cs"
    using assms(2) by (simp add: parse_arg_clause)
  then show ?thesis
    by (simp add: parse_signature_def)
qed

lemma parse_signature_plain_clauses_example:
  "parse_signature ''($self, a, b=1)'' None = ''(self, a, b = 1)''"
proof -
  have "\<forall>c \<in> set [(''$self'', None), (''a'', None), (''b'', Some ''1'')]. plain_clause c"
    by (simp add: plain_def py_isspace_def)
  from parse_signature_plain_clauses [OF _ this, of None] show ?thesis
    by simp
qed

text \<open>
  Claim C2 on the code.  The clause \<open>sep="="\<close> is split at every \<open>=\<close>, into three
  pieces; as the number of pieces is not two, no default is written: the parameter
  \<open>sep\<close> comes out without its default text.
\<close>

theorem parse_signature_default_with_equals:
  \<open>parse_signature ''(a, sep="=")'' None = ''(a, sep)''\<close>
  by code_simp

text \<open>
  Claim C6 on the code.  \<open>$self\<close> is renamed and the order is kept, but the default text
  of \<open>sep\<close>, which contains \<open>=\<close>, is not in the output.
\<close>

theorem parse_signature_self_default_with_equals:
  \<open>parse_signature ''($self, sep="=")'' None = ''(self, sep)''\<close>
  by code_simp

text \<open>
  Claim C9.  A signature made of parentheses and spaces only has the single clause
  \<open>""\<close>, and \<open>parse_signature\<close> returns exactly \<open>()\<close> for it.
\<close>

theorem parse_signature_no_args:
  assumes "set sig \<subseteq> {CHR '' '', CHR ''('', CHR '')''}"
  shows "sig_args sig = [[]] \<and> parse_signature sig docstr = ''()''"
proof -
  have "py_strip_chars '' ()'' sig = []"
    using assms by (intro py_strip_chars_all) auto
  then have args: "sig_args sig = [[]]"
    by (simp add: sig_args_def py_strip_empty)
  then show ?thesis
    by (simp add: parse_signature_def parse_arg_empty)
qed

theorem parse_signature_no_args_witness:
  "set ''( )'' \<subseteq> {CHR '' '', CHR ''('', CHR '')''}
   \<and> sig_args ''( )'' = [[]] \<and> parse_signature ''( )'' None = ''()''"
  using parse_signature_no_args [of "''( )''" None] by simp

section \<open>Function and class entries\<close>

lemma py_split_LF_Cons:
  "py_split ''\<newline>'' (c # cs) =
     (if c = CHR 0x0A then [] # py_split ''\<newline>'' cs
      else (c # hd (py_split ''\<newline>'' cs)) # tl (py_split ''\<newline>'' cs))"
  by (simp add: Let_def)

lemma splitlines_LF:
  assumes "\<forall>c \<in> set d. is_linebreak c \<longrightarrow> c = CHR 0x0A"
  shows "splitlines d =
     map (\<lambda>l. l @ ''\<newline>'') (butlast (py_split ''\<newline>'' d))
     @ (if last (py_split ''\<newline>'' d) = [] then [] else [last (py_split ''\<newline>'' d)])"
  using assms
proof (induction d)
  case Nil
  then show ?case by simp
next
  case (Cons c cs)
  let ?ps = "py_split ''\<newline>'' cs"
  have ne: "?ps \<noteq> []" by (rule py_split_nonempty)
  have IH: "splitlines cs =
     map (\<lambda>l. l @ ''\<newline>'') (butlast ?ps) @ (if last ?ps = [] then [] else [last ?ps])"
    using Cons by simp
  have lb: "is_linebreak (CHR 0x0A)" "is_linebreak (CHR 0x0D)"
    by (simp_all add: is_linebreak_def)
  show ?case
  proof (cases "c = CHR 0x0A")
    case True
    then show ?thesis
      using IH ne lb by (simp add: Let_def)
  next
    case False
    with Cons.prems have nlb: "\<not> is_linebreak c" by auto
    with lb have ncr: "c \<noteq> CHR 0x0D" by auto
    obtain h t where ps: "?ps = h # t" using ne by (cases ?ps) auto
    show ?thesis
    proof (cases t)
      case Nil
      with ps IH False nlb ncr show ?thesis
        by (simp add: Let_def)
    next
      case (Cons u us)
      with ps IH False nlb ncr show ?thesis
        by (simp add: Let_def)
    qed
  qed
qed

lemma indent_line_LF: "indent_line pfx (l @ ''\<newline>'') = indent_line pfx l @ ''\<newline>''"
  by (simp add: indent_line_def py_isspace_def)

lemma py_join_butlast:
  "xs \<noteq> [] \<Longrightarrow> py_join sep xs = concat (map (\<lambda>x. x @ sep) (butlast xs)) @ last xs"
proof (induction xs)
  case Nil
  then show ?case by simp
next
  case (Cons x xs)
  then show ?case by (cases xs) auto
qed

text \<open>
  For a text whose only line boundary is the line feed, \<open>textwrap.indent\<close> works on the
  pieces between the line feeds: every piece that is not white space only gets the prefix.
\<close>

theorem textwrap_indent_lines:
  assumes "\<forall>c \<in> set d. is_linebreak c \<longrightarrow> c = CHR 0x0A"
  shows "textwrap_indent d pfx = py_join ''\<newline>'' (map (indent_line pfx) (py_split ''\<newline>'' d))"
proof -
  let ?ps = "py_split ''\<newline>'' d"
  have ne: "?ps \<noteq> []" by (rule py_split_nonempty)
  have "textwrap_indent d pfx = concat (map (indent_line pfx) (splitlines d))"
    by (simp add: textwrap_indent_def indent_line_def [abs_def])
  also have "\<dots> = concat (map (\<lambda>l. indent_line pfx l @ ''\<newline>'') (butlast ?ps))
      @ indent_line pfx (last ?ps)"
    by (simp add: splitlines_LF [OF assms] indent_line_LF comp_def)
      (simp add: indent_line_def)
  also have "\<dots> = py_join ''\<newline>'' (map (indent_line pfx) ?ps)"
    using ne by (simp add: py_join_butlast map_butlast last_map comp_def)
  finally show ?thesis .
qed

lemma concat_splitlines: "concat (splitlines d) = d"
proof (induction d rule: splitlines.induct)
  case 1
  then show ?case by simp
next
  case (2 c cs)
  show ?case
  proof (cases "c = CHR 0x0D \<and> prefix [CHR 0x0A] cs")
    case True
    then obtain cs' where "cs = CHR 0x0A # cs'" by (cases cs) auto
    with True 2 show ?thesis by simp
  next
    case False
    with 2 show ?thesis
      by (cases "is_linebreak c") (auto split: list.splits)
  qed
qed

lemma splitlines_empty_iff: "splitlines d = [] \<longleftrightarrow> d = []"
  by (cases d) (auto split: list.splits)

lemma splitlines_no_empty_line: "[] \<notin> set (splitlines d)"
  by (induction d rule: splitlines.induct) (auto split: list.splits if_splits)

lemma splitlines_append_plain:
  "\<forall>c \<in> set s. \<not> is_linebreak c \<Longrightarrow>
     splitlines (s @ t) =
       (case splitlines t of [] \<Rightarrow> (if s = [] then [] else [s]) | x # xs \<Rightarrow> (s @ x) # xs)"
proof (induction s)
  case Nil
  then show ?case by (simp split: list.splits)
next
  case (Cons a s)
  have "a \<noteq> CHR 0x0D"
    using Cons.prems by (auto simp: is_linebreak_def)
  with Cons show ?case
    by (auto split: list.splits)
qed

lemma linebreak_isspace: "is_linebreak c \<Longrightarrow> py_isspace c"
  by (auto simp: is_linebreak_def py_isspace_def)

lemma textwrap_indent_concat:
  "textwrap_indent d pfx = concat (map (indent_line pfx) (splitlines d))"
  by (simp add: textwrap_indent_def indent_line_def [abs_def])

lemma indent_line_cases: "indent_line pfx l = l \<or> indent_line pfx l = pfx @ l"
  by (simp add: indent_line_def)

lemma hd_textwrap_indent:
  assumes "cs \<noteq> []"
  shows "textwrap_indent cs pfx \<noteq> []
     \<and> (hd (textwrap_indent cs pfx) = hd cs \<or> hd (textwrap_indent cs pfx) \<in> set pfx)"
proof -
  obtain l ls where sl: "splitlines cs = l # ls"
    using assms by (cases "splitlines cs") (auto simp: splitlines_empty_iff)
  have l: "l \<noteq> []"
    using splitlines_no_empty_line [of cs] sl by auto
  have "concat (l # ls) = cs"
    using concat_splitlines [of cs] sl by simp
  with l have hd: "hd cs = hd l"
    by (cases l) auto
  have T: "textwrap_indent cs pfx = indent_line pfx l @ concat (map (indent_line pfx) ls)"
    by (simp add: textwrap_indent_concat sl)
  from indent_line_cases [of pfx l] show ?thesis
  proof
    assume "indent_line pfx l = l"
    with T l hd show ?thesis by simp
  next
    assume "indent_line pfx l = pfx @ l"
    with T l hd show ?thesis by (cases pfx) auto
  qed
qed

text \<open>
  Indenting keeps the lines apart: the lines of the indented text are the lines of the
  text, each one indented on its own.  Hence taking the indentation away gives the text
  back.
\<close>

lemma splitlines_textwrap_indent:
  assumes pfx: "\<forall>c \<in> set pfx. \<not> is_linebreak c"
  shows "splitlines (textwrap_indent d pfx) = map (indent_line pfx) (splitlines d)"
proof (induction d rule: splitlines.induct)
  case 1
  then show ?case by (simp add: textwrap_indent_concat)
next
  case (2 c cs)
  let ?F = "indent_line pfx"
  have LF: "is_linebreak (CHR 0x0A)" and CR: "is_linebreak (CHR 0x0D)"
    by (simp_all add: is_linebreak_def)
  show ?case
  proof (cases "c = CHR 0x0D \<and> prefix [CHR 0x0A] cs")
    case True
    then obtain cs' where cs: "cs = CHR 0x0A # cs'" by (cases cs) auto
    have F: "?F [CHR 0x0D, CHR 0x0A] = [CHR 0x0D, CHR 0x0A]"
      by (simp add: indent_line_def py_isspace_def)
    have IH: "splitlines (textwrap_indent cs' pfx) = map ?F (splitlines cs')"
      using 2(1) [OF True] cs by simp
    have "textwrap_indent (c # cs) pfx = CHR 0x0D # CHR 0x0A # textwrap_indent cs' pfx"
      using True cs F by (simp add: textwrap_indent_concat)
    then show ?thesis
      using True cs F IH by simp
  next
    case False
    show ?thesis
    proof (cases "is_linebreak c")
      case True
      have F: "?F [c] = [c]"
        using linebreak_isspace [OF True] by (simp add: indent_line_def)
      have IH: "splitlines (textwrap_indent cs pfx) = map ?F (splitlines cs)"
        using 2(2) [OF False True] .
      have sd: "splitlines (c # cs) = [c] # splitlines cs"
        using False True by auto
      have T: "textwrap_indent (c # cs) pfx = c # textwrap_indent cs pfx"
        by (simp only: textwrap_indent_concat sd list.map concat.simps F) simp
      have "\<not> (c = CHR 0x0D \<and> prefix [CHR 0x0A] (textwrap_indent cs pfx))"
      proof
        assume a: "c = CHR 0x0D \<and> prefix [CHR 0x0A] (textwrap_indent cs pfx)"
        then have ne: "textwrap_indent cs pfx \<noteq> []" and h: "hd (textwrap_indent cs pfx) = CHR 0x0A"
          by (auto simp: prefix_def)
        then have "cs \<noteq> []"
          by (auto simp: textwrap_indent_concat)
        from hd_textwrap_indent [OF this, of pfx] h
        have "hd cs = CHR 0x0A \<or> CHR 0x0A \<in> set pfx" by auto
        then show False
        proof
          assume "hd cs = CHR 0x0A"
          with \<open>cs \<noteq> []\<close> have "prefix [CHR 0x0A] cs" by (cases cs) auto
          with a False show False by simp
        next
          assume "CHR 0x0A \<in> set pfx"
          with pfx LF show False by auto
        qed
      qed
      then have "splitlines (c # textwrap_indent cs pfx) = [c] # splitlines (textwrap_indent cs pfx)"
        using True by auto
      with T IH F sd show ?thesis
        by (simp del: splitlines.simps)
    next
      case nlb: False
      have IH: "splitlines (textwrap_indent cs pfx) = map ?F (splitlines cs)"
        using 2(3) [OF False nlb] .
      have ncr: "c \<noteq> CHR 0x0D" using nlb CR by auto
      show ?thesis
      proof (cases "cs = []")
        case True
        have "\<forall>x \<in> set (?F [c]). \<not> is_linebreak x"
          using nlb pfx indent_line_cases [of pfx "[c]"] by auto
        from splitlines_append_plain [OF this, of "[]"]
        have "splitlines (?F [c]) = [?F [c]]"
          using indent_line_cases [of pfx "[c]"] by auto
        with True nlb ncr show ?thesis
          by (simp add: textwrap_indent_concat)
      next
        case ne: False
        obtain l ls where sl: "splitlines cs = l # ls"
          using ne by (cases "splitlines cs") (auto simp: splitlines_empty_iff)
        have l: "l \<noteq> []"
          using splitlines_no_empty_line [of cs] sl by auto
        let ?R = "concat (map ?F ls)"
        have IH': "splitlines (?F l @ ?R) = ?F l # map ?F ls"
          using IH sl by (simp add: textwrap_indent_concat)
        have X: "splitlines (l @ ?R) = l # map ?F ls"
        proof -
          from indent_line_cases [of pfx l] show ?thesis
          proof
            assume "?F l = l"
            with IH' show ?thesis by simp
          next
            assume Fl: "?F l = pfx @ l"
            obtain x xs where xs: "splitlines (l @ ?R) = x # xs"
              using l by (cases "splitlines (l @ ?R)") (auto simp: splitlines_empty_iff)
            from splitlines_append_plain [OF pfx, of "l @ ?R"] xs
            have "splitlines (pfx @ l @ ?R) = (pfx @ x) # xs" by simp
            with IH' Fl xs show ?thesis by simp
          qed
        qed
        have sd: "splitlines (c # cs) = (c # l) # ls"
          using False nlb ncr sl by simp
        have T: "textwrap_indent (c # cs) pfx = ?F (c # l) @ ?R"
          using sd by (simp add: textwrap_indent_concat)
        from indent_line_cases [of pfx "c # l"]
        have "splitlines (?F (c # l) @ ?R) = ?F (c # l) # map ?F ls"
        proof
          assume Fc: "?F (c # l) = c # l"
          have "\<forall>x \<in> set [c]. \<not> is_linebreak x" using nlb by simp
          from splitlines_append_plain [OF this, of "l @ ?R"] X Fc
          show ?thesis by simp
        next
          assume Fc: "?F (c # l) = pfx @ c # l"
          have "\<forall>x \<in> set (pfx @ [c]). \<not> is_linebreak x" using nlb pfx by auto
          from splitlines_append_plain [OF this, of "l @ ?R"] X Fc
          show ?thesis by simp
        qed
        with T sd show ?thesis by simp
      qed
    qed
  qed
qed

lemma unindent_indent_line:
  "unindent_line pfx (indent_line pfx l) = l"
  by (auto simp: unindent_line_def indent_line_def)

lemma unindent_textwrap_indent:
  assumes "\<forall>c \<in> set pfx. \<not> is_linebreak c"
  shows "unindent (textwrap_indent d pfx) pfx = d"
proof -
  have "unindent (textwrap_indent d pfx) pfx
      = concat (map (unindent_line pfx) (map (indent_line pfx) (splitlines d)))"
    by (simp add: unindent_def splitlines_textwrap_indent [OF assms])
  also have "\<dots> = concat (splitlines d)"
    by (simp add: comp_def unindent_indent_line)
  finally show ?thesis
    by (simp add: concat_splitlines)
qed

text \<open>An empty docstring counts as none.  (The runtime gives \<open>None\<close>, not the empty
  string, for a native callable without documentation.)\<close>

lemma gen_function_entry_empty_doc:
  assumes "py_text_signature f = PyStr sig" and "py_doc f = Some []"
  shows "gen_function_entry f =
     Inr (''def '' @ py_name f @ parse_signature sig (Some []) @ '':\<newline>    ...\<newline>'')"
  using assms by (simp add: gen_function_entry_def)

text \<open>
  Claim C5.  For a callable with a text signature the entry is \<open>def\<close>, the name, the
  parsed signature, a colon, a line feed, the documentation block and a line feed.
  Without documentation the block is the placeholder \<open>...\<close>.  Documentation without a
  line feed stands between triple quotes on one line.  Documentation with a line feed stands
  between triple quotes on lines of their own, as an indented block: the lines of the block
  are the lines of the documentation, with four spaces in front of each one that is not
  white space only, and taking the indentation away gives the documentation text back
  unchanged.
\<close>

theorem gen_function_entry_shape:
  assumes "py_text_signature f = PyStr sig"
  shows \<open>(py_doc f = None \<longrightarrow>
       gen_function_entry f =
         Inr (''def '' @ py_name f @ parse_signature sig None @ '':\<newline>''
              @ ''    ...'' @ ''\<newline>''))
   \<and> (py_doc f = Some d \<and> d \<noteq> [] \<and> CHR 0x0A \<notin> set d \<longrightarrow>
       gen_function_entry f =
         Inr (''def '' @ py_name f @ parse_signature sig (Some d) @ '':\<newline>''
              @ ''    """'' @ d @ ''"""'' @ ''\<newline>''))
   \<and> (py_doc f = Some d \<and> CHR 0x0A \<in> set d \<longrightarrow>
       gen_function_entry f =
         Inr (''def '' @ py_name f @ parse_signature sig (Some d) @ '':\<newline>''
              @ ''    """\<newline>'' @ textwrap_indent d ''    '' @ ''\<newline>    """'' @ ''\<newline>'')
       \<and> splitlines (textwrap_indent d ''    '') = map (indent_line ''    '') (splitlines d)
       \<and> unindent (textwrap_indent d ''    '') ''    '' = d)\<close>
proof -
  have pfx: "\<forall>c \<in> set ''    ''. \<not> is_linebreak c"
    by (simp add: is_linebreak_def)
  have "py_doc f = None \<longrightarrow>
       gen_function_entry f =
         Inr (''def '' @ py_name f @ parse_signature sig None @ '':\<newline>''
              @ ''    ...'' @ ''\<newline>'')"
    using assms by (simp add: gen_function_entry_def)
  moreover have \<open>py_doc f = Some d \<and> d \<noteq> [] \<and> CHR 0x0A \<notin> set d \<longrightarrow>
       gen_function_entry f =
         Inr (''def '' @ py_name f @ parse_signature sig (Some d) @ '':\<newline>''
              @ ''    """'' @ d @ ''"""'' @ ''\<newline>'')\<close>
    using assms by (simp add: gen_function_entry_def doc_block_def)
  moreover have \<open>py_doc f = Some d \<and> CHR 0x0A \<in> set d \<longrightarrow>
       gen_function_entry f =
         Inr (''def '' @ py_name f @ parse_signature sig (Some d) @ '':\<newline>''
              @ ''    """\<newline>'' @ textwrap_indent d ''    '' @ ''\<newline>    """'' @ ''\<newline>'')\<close>
    using assms by (auto simp: gen_function_entry_def doc_block_def)
  moreover have "splitlines (textwrap_indent d ''    '') = map (indent_line ''    '') (splitlines d)"
    using pfx by (rule splitlines_textwrap_indent)
  moreover have "unindent (textwrap_indent d ''    '') ''    '' = d"
    using pfx by (rule unindent_textwrap_indent)
  ultimately show ?thesis
    by blast
qed

theorem gen_function_entry_shape_witness:
  \<open>(py_text_signature function_a = PyStr ''()'' \<and> py_doc function_a = None
      \<and> gen_function_entry function_a = Inr ''def a():\<newline>    ...\<newline>'')
   \<and> (py_text_signature add_function = PyStr ''(a, b=0)''
      \<and> py_doc add_function = Some ''Add two numbers.''
      \<and> ''Add two numbers.'' \<noteq> [] \<and> CHR 0x0A \<notin> set ''Add two numbers.''
      \<and> gen_function_entry add_function =
          Inr ''def add(a, b = 0):\<newline>    """Add two numbers."""\<newline>'')
   \<and> (py_text_signature sum_function = PyStr ''(a, b)''
      \<and> py_doc sum_function = Some ''Add two numbers.\<newline>Return the sum.''
      \<and> CHR 0x0A \<in> set ''Add two numbers.\<newline>Return the sum.''
      \<and> gen_function_entry sum_function =
          Inr ''def total(a, b):\<newline>    """\<newline>    Add two numbers.\<newline>    Return the sum.\<newline>    """\<newline>''
      \<and> splitlines ''    Add two numbers.\<newline>    Return the sum.''
          = [''    Add two numbers.\<newline>'', ''    Return the sum.'']
      \<and> unindent ''    Add two numbers.\<newline>    Return the sum.'' ''    ''
          = ''Add two numbers.\<newline>Return the sum.'')\<close>
proof -
  have h1: "py_text_signature sum_function = PyStr ''(a, b)''"
    and d1: "py_doc sum_function = Some ''Add two numbers.\<newline>Return the sum.''"
    by (simp_all add: sum_function_def)
  have h2: "py_text_signature add_function = PyStr ''(a, b=0)''"
    and d2: "py_doc add_function = Some ''Add two numbers.''"
    by (simp_all add: add_function_def)
  have h3: "py_text_signature function_a = PyStr ''()''"
    and d3: "py_doc function_a = None"
    by (simp_all add: function_a_def)
  have n1: "CHR 0x0A \<in> set ''Add two numbers.\<newline>Return the sum.''"
    by simp
  have n2: "''Add two numbers.'' \<noteq> [] \<and> CHR 0x0A \<notin> set ''Add two numbers.''"
    by simp
  have i: "textwrap_indent ''Add two numbers.\<newline>Return the sum.'' ''    ''
      = ''    Add two numbers.\<newline>    Return the sum.''"
    by code_simp
  have p1: "parse_signature ''(a, b)'' d = ''(a, b)''" for d
    by (simp add: parse_signature_def) code_simp
  have p3: "parse_signature ''()'' d = ''()''" for d
    by (simp add: parse_signature_def) code_simp
  have a: "gen_function_entry function_a = Inr ''def a():\<newline>    ...\<newline>''"
    using gen_function_entry_shape [OF h3] d3 by (simp add: function_a_def p3)
  have b: \<open>gen_function_entry add_function =
     Inr ''def add(a, b = 0):\<newline>    """Add two numbers."""\<newline>''\<close>
    using gen_function_entry_shape [OF h2, of "''Add two numbers.''"] d2 n2
    by (simp add: add_function_def parse_signature_a_b0)
  have nm: "py_name sum_function = ''total''"
    by (simp add: sum_function_def)
  have c0: \<open>gen_function_entry sum_function =
         Inr (''def '' @ py_name sum_function
              @ parse_signature ''(a, b)'' (Some ''Add two numbers.\<newline>Return the sum.'')
              @ '':\<newline>'' @ ''    """\<newline>''
              @ textwrap_indent ''Add two numbers.\<newline>Return the sum.'' ''    ''
              @ ''\<newline>    """'' @ ''\<newline>'')\<close>
    using gen_function_entry_shape [OF h1, of "''Add two numbers.\<newline>Return the sum.''"] d1 n1
    by blast
  have c1: \<open>gen_function_entry sum_function =
        Inr ''def total(a, b):\<newline>    """\<newline>    Add two numbers.\<newline>    Return the sum.\<newline>    """\<newline>''\<close>
    unfolding c0 nm p1 i by simp
  have l: "map (indent_line ''    '') (splitlines ''Add two numbers.\<newline>Return the sum.'')
      = [''    Add two numbers.\<newline>'', ''    Return the sum.'']"
    by code_simp
  have "splitlines (textwrap_indent ''Add two numbers.\<newline>Return the sum.'' ''    '')
      = map (indent_line ''    '') (splitlines ''Add two numbers.\<newline>Return the sum.'')"
    using gen_function_entry_shape [OF h1, of "''Add two numbers.\<newline>Return the sum.''"] d1 n1
    by blast
  then have c2: "splitlines ''    Add two numbers.\<newline>    Return the sum.''
          = [''    Add two numbers.\<newline>'', ''    Return the sum.'']"
    unfolding i l .
  have "unindent (textwrap_indent ''Add two numbers.\<newline>Return the sum.'' ''    '') ''    ''
      = ''Add two numbers.\<newline>Return the sum.''"
    using gen_function_entry_shape [OF h1, of "''Add two numbers.\<newline>Return the sum.''"] d1 n1
    by blast
  then have c3: "unindent ''    Add two numbers.\<newline>    Return the sum.'' ''    ''
          = ''Add two numbers.\<newline>Return the sum.''"
    unfolding i .
  note c = c1 c2 c3
  show ?thesis
    using a b c h1 h2 h3 d1 d2 d3 n1 n2 by blast
qed

lemma filter_is_method_dunder:
  "filter is_method (map snd (filter (\<lambda>(k, f). \<not> prefix ''__'' (py_name f)) ms))
     = filter is_method (map snd ms)"
  by (induction ms) (auto simp: is_method_def)

text \<open>
  Claim C7.  The members whose \<open>__name__\<close> starts with two underscores have no part in
  the class entry: the result of \<open>gen_class_entry\<close> is the one for the class without them,
  whatever their type and text signature.
\<close>

theorem gen_class_entry_skips_dunder:
  "gen_class_entry (PyObj t n d s ms)
     = gen_class_entry (PyObj t n d s (filter (\<lambda>(k, f). \<not> prefix ''__'' (py_name f)) ms))"
  by (simp add: gen_class_entry_def filter_is_method_dunder split: sum.splits)

theorem gen_class_entry_skips_dunder_witness:
  \<open>gen_class_entry counter_class = gen_class_entry counter_class_plain
   \<and> gen_class_entry counter_class_plain =
     Inr ''class Counter:\<newline>    """A counter."""\<newline>    def increment(self, by = 1):\<newline>        """Add to the count."""\<newline>\<newline>''\<close>
proof -
  have "gen_class_entry counter_class = gen_class_entry counter_class_plain"
    using gen_class_entry_skips_dunder
      [of TypeType "''Counter''" "Some ''A counter.''" Absent
          "[(''__reduce__'', reduce_method), (''increment'', increment_method)]"]
    by (simp add: counter_class_def counter_class_plain_def reduce_method_def
        increment_method_def)
  moreover have \<open>gen_class_entry counter_class_plain =
     Inr ''class Counter:\<newline>    """A counter."""\<newline>    def increment(self, by = 1):\<newline>        """Add to the count."""\<newline>\<newline>''\<close>
    unfolding counter_class_plain_def increment_method_def by code_simp
  ultimately show ?thesis
    by simp
qed

section \<open>The dispatcher\<close>

text \<open>
  Claim C4.  For an object whose type is neither one of \<open>FUNCTION_TYPES\<close> nor \<open>type\<close>,
  \<open>genentry\<close> raises the error with the message \<open>Unsupported type <class '...'>\<close> that
  names the type.  For a type of \<open>FUNCTION_TYPES\<close> the result is that of
  \<open>gen_function_entry\<close>, for \<open>type\<close> that of \<open>gen_class_entry\<close>, and in both cases it
  is not the unsupported-type error.
\<close>

theorem genentry_dispatch:
  "(py_type obj \<notin> set FUNCTION_TYPES \<and> py_type obj \<noteq> TypeType \<longrightarrow>
      genentry obj =
        Inl (ValueError (''Unsupported type <class '' @ [CHR 0x27] @ type_name (py_type obj)
                         @ [CHR 0x27] @ ''>'')))
   \<and> (py_type obj \<in> set FUNCTION_TYPES \<longrightarrow>
      genentry obj = gen_function_entry obj \<and> (\<forall>msg. genentry obj \<noteq> Inl (ValueError msg)))
   \<and> (py_type obj = TypeType \<longrightarrow>
      genentry obj = gen_class_entry obj \<and> (\<forall>msg. genentry obj \<noteq> Inl (ValueError msg)))"
  using TypeType_not_function
  by (auto simp: genentry_def type_repr_def gen_function_entry_no_ValueError
      gen_class_entry_no_ValueError)

theorem genentry_dispatch_witness:
  "(py_type int_object \<notin> set FUNCTION_TYPES \<and> py_type int_object \<noteq> TypeType
      \<and> genentry int_object = Inl (ValueError ''Unsupported type <class 'int'>''))
   \<and> (py_type add_function \<in> set FUNCTION_TYPES
      \<and> genentry add_function = gen_function_entry add_function
      \<and> (\<forall>msg. genentry add_function \<noteq> Inl (ValueError msg)))
   \<and> (py_type empty_class = TypeType
      \<and> genentry empty_class = gen_class_entry empty_class
      \<and> (\<forall>msg. genentry empty_class \<noteq> Inl (ValueError msg)))"
proof -
  have h1: "py_type int_object \<notin> set FUNCTION_TYPES \<and> py_type int_object \<noteq> TypeType"
    by (rule int_object_type)
  have h2: "py_type add_function \<in> set FUNCTION_TYPES"
    by (rule add_function_type)
  have h3: "py_type empty_class = TypeType"
    by (simp add: empty_class_def)
  have n: "type_name (py_type int_object) = ''int''"
    by (simp add: int_object_def)
  have a: "genentry int_object = Inl (ValueError ''Unsupported type <class 'int'>'')"
    using genentry_dispatch [of int_object] h1 n by simp
  have b: "genentry add_function = gen_function_entry add_function
      \<and> (\<forall>msg. genentry add_function \<noteq> Inl (ValueError msg))"
    using genentry_dispatch [of add_function] h2 by blast
  have c: "genentry empty_class = gen_class_entry empty_class
      \<and> (\<forall>msg. genentry empty_class \<noteq> Inl (ValueError msg))"
    using genentry_dispatch [of empty_class] h3 by blast
  show ?thesis
    using a b c h1 h2 h3 by blast
qed

section \<open>The module aggregator\<close>

text \<open>
  Claim C10.  An object that passes the filter of \<open>genpyi\<close> (its type is in
  \<open>SUPPORTED_TYPES\<close>) never makes \<open>genentry\<close> raise the unsupported-type error, and
  \<open>genpyi\<close> raises that error for no module.
\<close>

theorem genpyi_never_unsupported:
  "(py_type obj \<in> set SUPPORTED_TYPES \<longrightarrow> genentry obj \<noteq> Inl (ValueError msg))
   \<and> genpyi module \<noteq> Inl (ValueError msg')"
proof
  show "py_type obj \<in> set SUPPORTED_TYPES \<longrightarrow> genentry obj \<noteq> Inl (ValueError msg)"
    by (simp add: supported_iff genentry_def gen_function_entry_no_ValueError
        gen_class_entry_no_ValueError)
  show "genpyi module \<noteq> Inl (ValueError msg')"
  proof
    assume "genpyi module = Inl (ValueError msg')"
    then have "mapM genentry (filter (\<lambda>obj. py_type obj \<in> set SUPPORTED_TYPES)
        (map snd (py_dir module))) = Inl (ValueError msg')"
      by (simp add: genpyi_def Let_def split: sum.splits)
    then obtain x where "py_type x \<in> set SUPPORTED_TYPES" "genentry x = Inl (ValueError msg')"
      using mapM_Inl by fastforce
    then show False
      by (auto simp: supported_iff genentry_def gen_function_entry_no_ValueError
          gen_class_entry_no_ValueError split: if_splits)
  qed
qed

theorem genpyi_never_unsupported_witness:
  "py_type add_function \<in> set SUPPORTED_TYPES
   \<and> genentry add_function \<noteq> Inl (ValueError ''Unsupported type'')
   \<and> genpyi add_module \<noteq> Inl (ValueError ''Unsupported type'')"
proof -
  have h: "py_type add_function \<in> set SUPPORTED_TYPES"
    using add_function_type by (simp add: supported_iff)
  show ?thesis
    using genpyi_never_unsupported
      [of add_function "''Unsupported type''" add_module "''Unsupported type''"] h
    by simp
qed

lemma genentry_function_a: "genentry function_a = Inr ''def a():\<newline>    ...\<newline>''"
  unfolding function_a_def by code_simp

lemma genentry_class_b: "genentry class_b = Inr ''class b:\<newline>    ...\<newline>\<newline>''"
  unfolding class_b_def by code_simp

lemma sort_module_objs:
  "filter (\<lambda>obj. py_type obj \<in> set SUPPORTED_TYPES) (map snd (py_dir sort_module))
     = [function_a, class_b]"
  by (simp add: sort_module_def function_a_def class_b_def SUPPORTED_TYPES_def
      FUNCTION_TYPES_def BuiltinFunctionType_def MethodDescriptorType_def
      BuiltinMethodType_def)

lemma sort_entries:
  "sort [''def a():\<newline>    ...\<newline>'', ''class b:\<newline>    ...\<newline>\<newline>'']
     = [''class b:\<newline>    ...\<newline>\<newline>'', ''def a():\<newline>    ...\<newline>'']"
  by code_simp

lemma genpyi_sort_module:
  "genpyi sort_module =
     Inr ''# flake8: noqa: PYI021\<newline>class b:\<newline>    ...\<newline>\<newline>\<newline>def a():\<newline>    ...\<newline>''"
  unfolding sort_module_def function_a_def class_b_def by code_simp

text \<open>
  Claim C3.  When the entries of the supported members are generated without an error,
  \<open>definitions\<close> being these entries in the order of \<open>dir\<close>, the output of \<open>genpyi\<close> is
  the header \<open># flake8: noqa: PYI021\<close> and the sorted entries, joined by line feeds: it
  starts with the header, and the entries that follow are a permutation of \<open>definitions\<close>
  in ascending order of their text (the lexicographic order on strings).
\<close>

theorem genpyi_header_sorted:
  assumes "list_all2 (\<lambda>obj d. genentry obj = Inr d)
             (filter (\<lambda>obj. py_type obj \<in> set SUPPORTED_TYPES) (map snd (py_dir m)))
             definitions"
  shows "genpyi m = Inr (py_join ''\<newline>'' (''# flake8: noqa: PYI021'' # sort definitions))
     \<and> sorted (sort definitions) \<and> mset (sort definitions) = mset definitions
     \<and> prefix ''# flake8: noqa: PYI021''
          (py_join ''\<newline>'' (''# flake8: noqa: PYI021'' # sort definitions))"
proof -
  have "mapM genentry (filter (\<lambda>obj. py_type obj \<in> set SUPPORTED_TYPES) (map snd (py_dir m)))
      = Inr definitions"
    using assms by (rule mapM_Inr_I)
  then have "genpyi m
      = Inr (py_join ''\<newline>'' (''# flake8: noqa: PYI021'' # sort definitions))"
    by (simp add: genpyi_def header_def)
  moreover have "prefix ''# flake8: noqa: PYI021''
      (py_join ''\<newline>'' (''# flake8: noqa: PYI021'' # sort definitions))"
    by (simp only: py_join_Cons prefixI)
  ultimately show ?thesis
    by simp
qed

theorem genpyi_header_sorted_witness:
  "list_all2 (\<lambda>obj d. genentry obj = Inr d)
     (filter (\<lambda>obj. py_type obj \<in> set SUPPORTED_TYPES) (map snd (py_dir sort_module)))
     [''def a():\<newline>    ...\<newline>'', ''class b:\<newline>    ...\<newline>\<newline>'']
   \<and> genpyi sort_module =
     Inr ''# flake8: noqa: PYI021\<newline>class b:\<newline>    ...\<newline>\<newline>\<newline>def a():\<newline>    ...\<newline>''"
proof -
  have h: "list_all2 (\<lambda>obj d. genentry obj = Inr d)
     (filter (\<lambda>obj. py_type obj \<in> set SUPPORTED_TYPES) (map snd (py_dir sort_module)))
     [''def a():\<newline>    ...\<newline>'', ''class b:\<newline>    ...\<newline>\<newline>'']"
    by (simp add: sort_module_objs genentry_function_a genentry_class_b)
  show ?thesis
    using genpyi_header_sorted [OF h] h by (simp add: sort_entries)
qed

text \<open>
  Claim C8.  The output of \<open>genpyi\<close> is determined by the members of the module: a module
  with the same members, in whatever order they are enumerated, gives the same text.  In
  particular two calls on one unchanged module return the same text.
\<close>

theorem genpyi_deterministic:
  assumes "mset (py_dir m') = mset (py_dir m)"
    and "genpyi m = Inr out"
  shows "genpyi m' = Inr out"
proof -
  let ?P = "\<lambda>obj. py_type obj \<in> set SUPPORTED_TYPES"
  let ?xs = "filter ?P (map snd (py_dir m))"
  let ?xs' = "filter ?P (map snd (py_dir m'))"
  let ?g = "\<lambda>x. projr (genentry x)"
  have perm: "mset ?xs' = mset ?xs"
    using assms(1) by (metis mset_filter mset_map)
  obtain defs where defs: "mapM genentry ?xs = Inr defs"
    and out: "out = py_join ''\<newline>'' (header # sort defs)"
    using assms(2) by (auto simp: genpyi_def Let_def split: sum.splits)
  from mapM_Inr_map [OF defs]
  have d: "defs = map ?g ?xs" and ok: "\<forall>x \<in> set ?xs. genentry x = Inr (?g x)"
    by blast+
  have "set ?xs' = set ?xs"
    using perm by (rule mset_eq_setD)
  with ok have "\<forall>x \<in> set ?xs'. genentry x = Inr (?g x)"
    by simp
  then have defs': "mapM genentry ?xs' = Inr (map ?g ?xs')"
    by (rule mapM_all_Inr)
  have "mset (map ?g ?xs') = mset defs"
    using perm d by (metis mset_map)
  then have "sort (map ?g ?xs') = sort defs"
    by (intro properties_for_sort) simp_all
  with defs' out show ?thesis
    by (simp add: genpyi_def)
qed

theorem genpyi_deterministic_witness:
  "mset (py_dir sort_module_rev) = mset (py_dir sort_module)
   \<and> genpyi sort_module =
     Inr ''# flake8: noqa: PYI021\<newline>class b:\<newline>    ...\<newline>\<newline>\<newline>def a():\<newline>    ...\<newline>''
   \<and> genpyi sort_module_rev =
     Inr ''# flake8: noqa: PYI021\<newline>class b:\<newline>    ...\<newline>\<newline>\<newline>def a():\<newline>    ...\<newline>''"
proof -
  have h: "mset (py_dir sort_module_rev) = mset (py_dir sort_module)"
    by (simp add: sort_module_rev_def sort_module_def add.commute)
  show ?thesis
    using genpyi_deterministic [OF h genpyi_sort_module] h genpyi_sort_module by simp
qed

end
